theory Spec2Isabelle
  imports
    Complex_Main
    "HOL-Library.Sublist"
    "HOL-Library.Char_ord"
    "HOL-Library.List_Lexorder"
    "HOL-Library.Product_Lexorder"
begin

section \<open>The e-commerce dashboard: loader, filter, aggregations and summary metrics\<close>

text \<open>
  The program (\<^verbatim>\<open>src/dashboard/app.py\<close>) is one script over a data frame: \<^verbatim>\<open>load_data\<close>
  reads the file and derives three columns, the side bar resolves six filter values, one
  boolean mask selects \<^verbatim>\<open>filtered_df\<close>, and four aggregations and three scalars are
  computed from it.

  A data frame is a list of rows in file order. Every cell of a column may be missing
  (\<^verbatim>\<open>NaN\<close>, \<^verbatim>\<open>NaT\<close>): that is \<open>None\<close>. Monetary values are exact rationals, the values
  that the decimal literals of the file denote.
\<close>

subsection \<open>Timestamps, dates and periods\<close>

text \<open>
  A timestamp is a count of nanoseconds since 1970-01-01T00:00:00, a date a count of days
  since 1970-01-01, a monthly period a pair of year and month ordered lexicographically.
\<close>

type_synonym timestamp = int
type_synonym date = int
type_synonym period = "int \<times> int"

definition NS_PER_SECOND :: int where
  "NS_PER_SECOND = 1000000000"

definition NS_PER_HOUR :: int where
  "NS_PER_HOUR = 3600 * NS_PER_SECOND"

definition NS_PER_DAY :: int where
  "NS_PER_DAY = 24 * NS_PER_HOUR"

text \<open>\<^verbatim>\<open>Timestamp.date()\<close>: the calendar day a timestamp falls on.\<close>

definition date_of :: "timestamp \<Rightarrow> date" where
  "date_of t = t div NS_PER_DAY"

text \<open>\<^verbatim>\<open>pd.to_datetime(d)\<close> for a date \<open>d\<close>: the instant 00:00:00 of that day.\<close>

definition to_datetime :: "date \<Rightarrow> timestamp" where
  "to_datetime d = d * NS_PER_DAY"

text \<open>
  The proleptic Gregorian calendar: year, month and day of a day count, and the day count
  of a year, month and day.
\<close>

definition civil_from_days :: "date \<Rightarrow> int \<times> int \<times> int" where
  "civil_from_days z0 =
     (let z = z0 + 719468;
          era = z div 146097;
          doe = z - era * 146097;
          yoe = (doe - doe div 1460 + doe div 36524 - doe div 146096) div 365;
          y = yoe + era * 400;
          doy = doe - (365 * yoe + yoe div 4 - yoe div 100);
          mp = (5 * doy + 2) div 153;
          d = doy - (153 * mp + 2) div 5 + 1;
          m = (if mp < 10 then mp + 3 else mp - 9)
      in (if m \<le> 2 then y + 1 else y, m, d))"

definition days_from_civil :: "int \<Rightarrow> int \<Rightarrow> int \<Rightarrow> date" where
  "days_from_civil y0 m d =
     (let y = (if m \<le> 2 then y0 - 1 else y0);
          era = y div 400;
          yoe = y - era * 400;
          doy = (153 * (if m > 2 then m - 3 else m + 9) + 2) div 5 + d - 1;
          doe = yoe * 365 + yoe div 4 - yoe div 100 + doy
      in era * 146097 + doe - 719468)"

text \<open>The timestamp written \<open>y-m-d T hh:mm:ss\<close>.\<close>

definition mk_timestamp :: "int \<Rightarrow> int \<Rightarrow> int \<Rightarrow> int \<Rightarrow> int \<Rightarrow> int \<Rightarrow> timestamp" where
  "mk_timestamp y m d hh mm ss =
     days_from_civil y m d * NS_PER_DAY + (hh * 3600 + mm * 60 + ss) * NS_PER_SECOND"

text \<open>\<^verbatim>\<open>.dt.year\<close>, \<^verbatim>\<open>.dt.hour\<close> and \<^verbatim>\<open>.dt.to_period("M")\<close> of one timestamp.\<close>

definition year_of :: "timestamp \<Rightarrow> int" where
  "year_of t = fst (civil_from_days (date_of t))"

definition month_of :: "timestamp \<Rightarrow> int" where
  "month_of t = fst (snd (civil_from_days (date_of t)))"

definition hour_of :: "timestamp \<Rightarrow> int" where
  "hour_of t = (t mod NS_PER_DAY) div NS_PER_HOUR"

definition to_period_M :: "timestamp \<Rightarrow> period" where
  "to_period_M t = (year_of t, month_of t)"

text \<open>
  \<^verbatim>\<open>.dt.days\<close> of the difference of two timestamps: the number of whole days, rounded
  towards minus infinity (a delivery one hour before the purchase gives \<open>-1\<close>).
\<close>

definition timedelta_days :: "timestamp \<Rightarrow> timestamp \<Rightarrow> int" where
  "timedelta_days later earlier = (later - earlier) div NS_PER_DAY"

subsection \<open>Columns with missing values\<close>

text \<open>\<^verbatim>\<open>dropna\<close>: the present values of a column, in order.\<close>

fun dropna :: "'a option list \<Rightarrow> 'a list" where
  "dropna [] = []"
| "dropna (None # xs) = dropna xs"
| "dropna (Some x # xs) = x # dropna xs"

text \<open>\<^verbatim>\<open>unique\<close>: the distinct values in order of first appearance.\<close>

definition unique :: "'a list \<Rightarrow> 'a list" where
  "unique xs = rev (remdups (rev xs))"

text \<open>\<^verbatim>\<open>nunique\<close> (with its default \<^verbatim>\<open>dropna=True\<close>).\<close>

definition nunique :: "'a option list \<Rightarrow> nat" where
  "nunique xs = length (unique (dropna xs))"

text \<open>
  \<^verbatim>\<open>min\<close> and \<^verbatim>\<open>max\<close> of a column skip missing values; of a column with no present
  value they are missing.
\<close>

definition series_min :: "'a::linorder option list \<Rightarrow> 'a option" where
  "series_min xs = (case dropna xs of [] \<Rightarrow> None | y # ys \<Rightarrow> Some (fold min ys y))"

definition series_max :: "'a::linorder option list \<Rightarrow> 'a option" where
  "series_max xs = (case dropna xs of [] \<Rightarrow> None | y # ys \<Rightarrow> Some (fold max ys y))"

text \<open>\<^verbatim>\<open>sum\<close> skips missing values; the sum of no value is \<open>0\<close>.\<close>

definition series_sum :: "rat option list \<Rightarrow> rat" where
  "series_sum xs = sum_list (dropna xs)"

text \<open>
  \<^verbatim>\<open>mean\<close> skips missing values; the mean of no value is missing. The column it is applied
  to holds whole numbers of days.
\<close>

definition series_mean :: "int option list \<Rightarrow> rat option" where
  "series_mean xs =
     (case dropna xs of
        [] \<Rightarrow> None
      | y # ys \<Rightarrow> Some (of_int (sum_list (y # ys)) / of_nat (length (y # ys))))"

text \<open>
  Comparisons of a cell with a bound: a missing cell compares false. \<^verbatim>\<open>isin\<close> with a
  list of strings, \<^verbatim>\<open>between\<close> with both ends included.
\<close>

definition cell_ge :: "'a::linorder option \<Rightarrow> 'a \<Rightarrow> bool" where
  "cell_ge c b = (case c of None \<Rightarrow> False | Some v \<Rightarrow> b \<le> v)"

definition cell_le :: "'a::linorder option \<Rightarrow> 'a \<Rightarrow> bool" where
  "cell_le c b = (case c of None \<Rightarrow> False | Some v \<Rightarrow> v \<le> b)"

definition cell_eq :: "'a option \<Rightarrow> 'a \<Rightarrow> bool" where
  "cell_eq c b = (case c of None \<Rightarrow> False | Some v \<Rightarrow> v = b)"

definition isin :: "'a option \<Rightarrow> 'a list \<Rightarrow> bool" where
  "isin c vs = (case c of None \<Rightarrow> False | Some v \<Rightarrow> v \<in> set vs)"

definition between :: "'a::linorder option \<Rightarrow> 'a \<Rightarrow> 'a \<Rightarrow> bool" where
  "between c lo hi = (case c of None \<Rightarrow> False | Some v \<Rightarrow> lo \<le> v \<and> v \<le> hi)"

text \<open>
  \<^verbatim>\<open>sort_values\<close> by a key. Descending order is obtained as the library does it, by
  reversing, sorting ascending and reversing again. The sort is the insertion sort of the
  list library; the order it gives to rows of equal key is a choice of this embedding, and
  no statement below depends on it.
\<close>

definition sort_values_asc :: "('a \<Rightarrow> 'k::linorder) \<Rightarrow> 'a list \<Rightarrow> 'a list" where
  "sort_values_asc f xs = sort_key f xs"

definition sort_values_desc :: "('a \<Rightarrow> 'k::linorder) \<Rightarrow> 'a list \<Rightarrow> 'a list" where
  "sort_values_desc f xs = rev (sort_key f (rev xs))"

text \<open>
  \<^verbatim>\<open>value_counts\<close>: missing values dropped, one row per distinct value with the number of
  its occurrences, most frequent first.
\<close>

definition value_counts :: "'a option list \<Rightarrow> ('a \<times> nat) list" where
  "value_counts xs =
     sort_values_desc snd (map (\<lambda>k. (k, count_list (dropna xs) k)) (unique (dropna xs)))"

text \<open>
  \<^verbatim>\<open>groupby\<close> on a key column: rows with a missing key belong to no group, and the groups
  come in ascending order of the key.
\<close>

definition group_keys :: "('r \<Rightarrow> 'k::linorder option) \<Rightarrow> 'r list \<Rightarrow> 'k list" where
  "group_keys key rows = sort (remdups (dropna (map key rows)))"

definition group_rows :: "('r \<Rightarrow> 'k option) \<Rightarrow> 'r list \<Rightarrow> 'k \<Rightarrow> 'r list" where
  "group_rows key rows k = filter (\<lambda>r. key r = Some k) rows"

definition groupby_agg ::
  "('r \<Rightarrow> 'k::linorder option) \<Rightarrow> ('r \<Rightarrow> 'v) \<Rightarrow> ('v list \<Rightarrow> 'w) \<Rightarrow> 'r list \<Rightarrow> ('k \<times> 'w) list" where
  "groupby_agg key col agg rows =
     map (\<lambda>k. (k, agg (map col (group_rows key rows k)))) (group_keys key rows)"

text \<open>\<^verbatim>\<open>dropna\<close> on the values of a keyed series.\<close>

fun dropna_values :: "('k \<times> 'v option) list \<Rightarrow> ('k \<times> 'v) list" where
  "dropna_values [] = []"
| "dropna_values ((k, None) # xs) = dropna_values xs"
| "dropna_values ((k, Some v) # xs) = (k, v) # dropna_values xs"

subsection \<open>The data set and its loader\<close>

text \<open>A row of the file: the two timestamp columns are still text.\<close>

record csv_row =
  csv_order_purchase_timestamp :: "string option"
  csv_order_delivered_customer_date :: "string option"
  csv_product_category_name :: "string option"
  csv_payment_type :: "string option"
  csv_payment_value :: "rat option"
  csv_customer_id :: "string option"

text \<open>A row of the loaded data frame, with the three derived columns.\<close>

record row =
  order_purchase_timestamp :: "timestamp option"
  order_delivered_customer_date :: "timestamp option"
  product_category_name :: "string option"
  payment_type :: "string option"
  payment_value :: "rat option"
  customer_id :: "string option"
  shipping_time :: "int option"
  order_hour :: "int option"
  year_month :: "period option"

datatype load_error = ParserError

text \<open>
  \<^verbatim>\<open>pd.to_datetime\<close> on a column of text. The parser of one cell, \<open>parse\<close>, is the
  library's and is a parameter: \<open>parse s = None\<close> says that \<open>s\<close> cannot be read as a
  timestamp. A missing cell stays missing in both modes. With the default
  \<^verbatim>\<open>errors="raise"\<close> one unreadable cell fails the whole conversion; with
  \<^verbatim>\<open>errors="coerce"\<close> it becomes a missing timestamp.
\<close>

fun to_datetime_raise ::
  "(string \<Rightarrow> timestamp option) \<Rightarrow> string option list \<Rightarrow> load_error + timestamp option list" where
  "to_datetime_raise parse [] = Inr []"
| "to_datetime_raise parse (None # cs) =
     (case to_datetime_raise parse cs of Inl e \<Rightarrow> Inl e | Inr ts \<Rightarrow> Inr (None # ts))"
| "to_datetime_raise parse (Some s # cs) =
     (case parse s of
        None \<Rightarrow> Inl ParserError
      | Some t \<Rightarrow>
          (case to_datetime_raise parse cs of Inl e \<Rightarrow> Inl e | Inr ts \<Rightarrow> Inr (Some t # ts)))"

definition to_datetime_coerce :: "(string \<Rightarrow> timestamp option) \<Rightarrow> string option \<Rightarrow> timestamp option" where
  "to_datetime_coerce parse c = (case c of None \<Rightarrow> None | Some s \<Rightarrow> parse s)"

text \<open>The difference of two timestamp cells in days: missing when either is missing.\<close>

definition days_between :: "timestamp option \<Rightarrow> timestamp option \<Rightarrow> int option" where
  "days_between delivered purchased =
     (case delivered of
        None \<Rightarrow> None
      | Some d \<Rightarrow> (case purchased of None \<Rightarrow> None | Some p \<Rightarrow> Some (timedelta_days d p)))"

definition load_row :: "(string \<Rightarrow> timestamp option) \<Rightarrow> csv_row \<Rightarrow> timestamp option \<Rightarrow> row" where
  "load_row parse c purchased =
     (let delivered = to_datetime_coerce parse (csv_order_delivered_customer_date c)
      in \<lparr> order_purchase_timestamp = purchased,
           order_delivered_customer_date = delivered,
           product_category_name = csv_product_category_name c,
           payment_type = csv_payment_type c,
           payment_value = csv_payment_value c,
           customer_id = csv_customer_id c,
           shipping_time = days_between delivered purchased,
           order_hour = map_option hour_of purchased,
           year_month = map_option to_period_M purchased \<rparr>)"

definition load_data :: "(string \<Rightarrow> timestamp option) \<Rightarrow> csv_row list \<Rightarrow> load_error + row list" where
  "load_data parse csv =
     (case to_datetime_raise parse (map csv_order_purchase_timestamp csv) of
        Inl e \<Rightarrow> Inl e
      | Inr ts \<Rightarrow> Inr (map2 (load_row parse) csv ts))"

subsection \<open>The filter\<close>

text \<open>The six values that the side bar hands to the filter.\<close>

record filter_params =
  start_date :: date
  end_date :: date
  selected_category :: "string list"
  selected_payment :: "string list"
  min_price :: rat
  max_price :: rat

text \<open>
  What the side bar offers before the user changes anything: the dates of the earliest and
  the latest purchase, the distinct categories and payment types that are present, and the
  least and greatest payment value.
\<close>

definition default_start_date :: "row list \<Rightarrow> date option" where
  "default_start_date df = map_option date_of (series_min (map order_purchase_timestamp df))"

definition default_end_date :: "row list \<Rightarrow> date option" where
  "default_end_date df = map_option date_of (series_max (map order_purchase_timestamp df))"

definition categories :: "row list \<Rightarrow> string list" where
  "categories df = unique (dropna (map product_category_name df))"

definition payment_methods :: "row list \<Rightarrow> string list" where
  "payment_methods df = unique (dropna (map payment_type df))"

definition default_min_price :: "row list \<Rightarrow> rat option" where
  "default_min_price df = series_min (map payment_value df)"

definition default_max_price :: "row list \<Rightarrow> rat option" where
  "default_max_price df = series_max (map payment_value df)"

text \<open>The mask of \<^verbatim>\<open>filtered_df\<close>, row by row, and the rows it keeps.\<close>

definition filter_mask :: "filter_params \<Rightarrow> row \<Rightarrow> bool" where
  "filter_mask p r \<longleftrightarrow>
     cell_ge (order_purchase_timestamp r) (to_datetime (start_date p)) \<and>
     cell_le (order_purchase_timestamp r) (to_datetime (end_date p)) \<and>
     isin (product_category_name r) (selected_category p) \<and>
     isin (payment_type r) (selected_payment p) \<and>
     between (payment_value r) (min_price p) (max_price p)"

definition filtered_df :: "row list \<Rightarrow> filter_params \<Rightarrow> row list" where
  "filtered_df df p = filter (filter_mask p) df"

subsection \<open>The aggregations and the summary metrics\<close>

definition top_categories :: "row list \<Rightarrow> (string \<times> nat) list" where
  "top_categories fdf = take 10 (value_counts (map product_category_name fdf))"

definition monthly_revenue :: "row list \<Rightarrow> (period \<times> rat) list" where
  "monthly_revenue fdf =
     groupby_agg year_month payment_value series_sum
       (filter (\<lambda>r. cell_eq (map_option year_of (order_purchase_timestamp r)) 2018) fdf)"

text \<open>The column handed to the histogram of the third tab.\<close>

definition order_hours :: "row list \<Rightarrow> int option list" where
  "order_hours fdf = map order_hour fdf"

definition avg_shipping_time :: "row list \<Rightarrow> (string \<times> rat) list" where
  "avg_shipping_time fdf =
     take 10 (sort_values_asc snd
       (dropna_values (groupby_agg product_category_name shipping_time series_mean fdf)))"

definition total_orders :: "row list \<Rightarrow> nat" where
  "total_orders fdf = length fdf"

definition total_customers :: "row list \<Rightarrow> nat" where
  "total_customers fdf = nunique (map customer_id fdf)"

definition total_revenue :: "row list \<Rightarrow> rat" where
  "total_revenue fdf = series_sum (map payment_value fdf)"

subsection \<open>The inclusion rule and the full-range parameters, as the specification words them\<close>

text \<open>
  The specification's rule for one record: the calendar day of the purchase lies between the
  two selected days, category and payment type are selected (a missing one is not), and the
  payment value lies in the price range.
\<close>

definition spec_inclusion :: "filter_params \<Rightarrow> row \<Rightarrow> bool" where
  "spec_inclusion p r \<longleftrightarrow>
     cell_ge (map_option date_of (order_purchase_timestamp r)) (start_date p) \<and>
     cell_le (map_option date_of (order_purchase_timestamp r)) (end_date p) \<and>
     isin (product_category_name r) (selected_category p) \<and>
     isin (payment_type r) (selected_payment p) \<and>
     between (payment_value r) (min_price p) (max_price p)"

text \<open>
  The parameters with every bound at its observed extreme and every category and payment
  type selected; there are none when the data set has no purchase timestamp or no payment
  value at all.
\<close>

definition observed_bounds :: "row list \<Rightarrow> filter_params option" where
  "observed_bounds df =
     (case default_start_date df of None \<Rightarrow> None | Some sd \<Rightarrow>
     (case default_end_date df of None \<Rightarrow> None | Some ed \<Rightarrow>
     (case default_min_price df of None \<Rightarrow> None | Some lo \<Rightarrow>
     (case default_max_price df of None \<Rightarrow> None | Some hi \<Rightarrow>
        Some \<lparr> start_date = sd, end_date = ed,
               selected_category = categories df, selected_payment = payment_methods df,
               min_price = lo, max_price = hi \<rparr>))))"

text \<open>A record is complete when none of the four filtered columns is missing.\<close>

definition complete_row :: "row \<Rightarrow> bool" where
  "complete_row r \<longleftrightarrow>
     order_purchase_timestamp r \<noteq> None \<and> product_category_name r \<noteq> None \<and>
     payment_type r \<noteq> None \<and> payment_value r \<noteq> None"

subsection \<open>A small data set\<close>

text \<open>
  Four rows of a file and a parser that reads the four timestamps occurring in them. The
  third row has a delivery date that cannot be read, the fourth has no purchase timestamp,
  category, payment type, value or customer.
\<close>

definition ex_parse :: "string \<Rightarrow> timestamp option" where
  "ex_parse s =
     (if s = ''2018-03-05 10:00:00'' then Some (mk_timestamp 2018 3 5 10 0 0)
      else if s = ''2018-03-08 10:00:00'' then Some (mk_timestamp 2018 3 8 10 0 0)
      else if s = ''2017-12-31 23:30:00'' then Some (mk_timestamp 2017 12 31 23 30 0)
      else if s = ''2018-04-01 00:00:00'' then Some (mk_timestamp 2018 4 1 0 0 0)
      else None)"

definition ex_csv1 :: csv_row where
  "ex_csv1 = \<lparr> csv_order_purchase_timestamp = Some ''2018-03-05 10:00:00'',
               csv_order_delivered_customer_date = Some ''2018-03-08 10:00:00'',
               csv_product_category_name = Some ''toys'',
               csv_payment_type = Some ''credit_card'',
               csv_payment_value = Some 100,
               csv_customer_id = Some ''A'' \<rparr>"

definition ex_csv2 :: csv_row where
  "ex_csv2 = \<lparr> csv_order_purchase_timestamp = Some ''2017-12-31 23:30:00'',
               csv_order_delivered_customer_date = None,
               csv_product_category_name = Some ''toys'',
               csv_payment_type = Some ''credit_card'',
               csv_payment_value = Some 200,
               csv_customer_id = Some ''A'' \<rparr>"

definition ex_csv3 :: csv_row where
  "ex_csv3 = \<lparr> csv_order_purchase_timestamp = Some ''2018-04-01 00:00:00'',
               csv_order_delivered_customer_date = Some ''soon'',
               csv_product_category_name = Some ''books'',
               csv_payment_type = Some ''voucher'',
               csv_payment_value = Some 300,
               csv_customer_id = Some ''B'' \<rparr>"

definition ex_csv4 :: csv_row where
  "ex_csv4 = \<lparr> csv_order_purchase_timestamp = None,
               csv_order_delivered_customer_date = Some ''2018-03-08 10:00:00'',
               csv_product_category_name = None,
               csv_payment_type = None,
               csv_payment_value = None,
               csv_customer_id = None \<rparr>"

text \<open>The rows that the loader makes of them.\<close>

definition ex_row1 :: row where
  "ex_row1 = \<lparr> order_purchase_timestamp = Some 1520244000000000000,
               order_delivered_customer_date = Some 1520503200000000000,
               product_category_name = Some ''toys'',
               payment_type = Some ''credit_card'',
               payment_value = Some 100,
               customer_id = Some ''A'',
               shipping_time = Some 3,
               order_hour = Some 10,
               year_month = Some (2018, 3) \<rparr>"

definition ex_row2 :: row where
  "ex_row2 = \<lparr> order_purchase_timestamp = Some 1514763000000000000,
               order_delivered_customer_date = None,
               product_category_name = Some ''toys'',
               payment_type = Some ''credit_card'',
               payment_value = Some 200,
               customer_id = Some ''A'',
               shipping_time = None,
               order_hour = Some 23,
               year_month = Some (2017, 12) \<rparr>"

definition ex_row3 :: row where
  "ex_row3 = \<lparr> order_purchase_timestamp = Some 1522540800000000000,
               order_delivered_customer_date = None,
               product_category_name = Some ''books'',
               payment_type = Some ''voucher'',
               payment_value = Some 300,
               customer_id = Some ''B'',
               shipping_time = None,
               order_hour = Some 0,
               year_month = Some (2018, 4) \<rparr>"

definition ex_row4 :: row where
  "ex_row4 = \<lparr> order_purchase_timestamp = None,
               order_delivered_customer_date = Some 1520503200000000000,
               product_category_name = None,
               payment_type = None,
               payment_value = None,
               customer_id = None,
               shipping_time = None,
               order_hour = None,
               year_month = None \<rparr>"

definition ex_df :: "row list" where
  "ex_df = [ex_row1, ex_row2, ex_row3, ex_row4]"

text \<open>
  Parameters selecting everything from 2017-12-31 to 2018-03-05, and the same with the end
  moved to 2018-04-02.
\<close>

definition ex_params :: filter_params where
  "ex_params = \<lparr> start_date = 17531, end_date = 17595,
                  selected_category = [''toys'', ''books''],
                  selected_payment = [''credit_card'', ''voucher''],
                  min_price = 100, max_price = 300 \<rparr>"

definition ex_params_wide :: filter_params where
  "ex_params_wide = ex_params \<lparr> end_date := 17623 \<rparr>"

definition ex_csv :: "csv_row list" where
  "ex_csv = [ex_csv1, ex_csv2, ex_csv3, ex_csv4]"

text \<open>
  A data set in which one record lacks nothing but its category, and whose latest purchase
  was made at 00:00:00; its parameters with every bound at the observed extreme.
\<close>

definition ex_row5 :: row where
  "ex_row5 = ex_row3 \<lparr> product_category_name := None \<rparr>"

definition ex_df2 :: "row list" where
  "ex_df2 = [ex_row2, ex_row3, ex_row5]"

definition ex_bounds2 :: filter_params where
  "ex_bounds2 = \<lparr> start_date = 17531, end_date = 17622,
                   selected_category = [''toys'', ''books''],
                   selected_payment = [''credit_card'', ''voucher''],
                   min_price = 200, max_price = 300 \<rparr>"

section \<open>Properties\<close>

subsection \<open>Columns\<close>

lemma set_dropna: "set (dropna xs) = {x. Some x \<in> set xs}"
  by (induction xs rule: dropna.induct) auto

lemma set_unique: "set (unique xs) = set xs"
  by (simp add: unique_def)

lemma distinct_unique: "distinct (unique xs)"
  by (simp add: unique_def)

lemma nunique_card: "nunique xs = card {x. Some x \<in> set xs}"
proof -
  have "nunique xs = card (set (unique (dropna xs)))"
    by (simp add: nunique_def distinct_card distinct_unique)
  then show ?thesis
    by (simp add: set_unique set_dropna)
qed

subsection \<open>Summary metrics\<close>

text \<open>
  Claim C9. \<open>total_customers\<close> is the number of distinct customer identifiers that are
  present in the filtered view: a record without customer identifier adds nothing to the
  count, it is not a bucket of its own.
\<close>

theorem total_customers_distinct_present:
  "total_customers fdf = card {c. \<exists>r \<in> set fdf. customer_id r = Some c}"
proof -
  have "{c. Some c \<in> set (map customer_id fdf)} = {c. \<exists>r \<in> set fdf. customer_id r = Some c}"
    by force
  then show ?thesis
    by (simp add: total_customers_def nunique_card)
qed

theorem total_customers_distinct_present_witness:
  "total_customers ex_df = 2 \<and> card {c. \<exists>r \<in> set ex_df. customer_id r = Some c} = 2"
proof -
  have "total_customers ex_df = 2"
    by (simp add: total_customers_def nunique_def unique_def ex_df_def
        ex_row1_def ex_row2_def ex_row3_def ex_row4_def)
  with total_customers_distinct_present [of ex_df] show ?thesis
    by simp
qed

text \<open>
  Claim C6. On the empty filtered view the revenue is the number 0, the order count is 0,
  and each of the four aggregations is the empty table.
\<close>

theorem empty_view_results:
  "total_revenue [] = 0 \<and> total_orders [] = 0 \<and>
   top_categories [] = [] \<and> monthly_revenue [] = [] \<and> order_hours [] = [] \<and>
   avg_shipping_time [] = []"
  by (simp add: total_revenue_def total_orders_def
      series_sum_def top_categories_def value_counts_def sort_values_desc_def unique_def
      monthly_revenue_def groupby_agg_def group_keys_def order_hours_def
      avg_shipping_time_def sort_values_asc_def)

subsection \<open>The filter\<close>

lemma filter_mask_end:
  "filter_mask p r \<Longrightarrow>
     \<exists>t. order_purchase_timestamp r = Some t \<and> t \<le> to_datetime (end_date p)"
  by (auto simp: filter_mask_def cell_le_def split: option.splits)

text \<open>
  Claim C10. The upper bound of the date range is the instant 00:00:00 of the end date:
  every record of the filtered view was purchased at or before that instant, and a record
  purchased on the end date after 00:00:00 is not in the filtered view.
\<close>

theorem end_date_bound_is_midnight:
  "(\<forall>r \<in> set (filtered_df df p).
      \<exists>t. order_purchase_timestamp r = Some t \<and> t \<le> to_datetime (end_date p)) \<and>
   (\<forall>r \<in> set df. \<forall>t.
      order_purchase_timestamp r = Some t \<and> date_of t = end_date p \<and>
      to_datetime (end_date p) < t
      \<longrightarrow> r \<notin> set (filtered_df df p))"
proof (intro conjI ballI allI impI)
  fix r assume "r \<in> set (filtered_df df p)"
  then show "\<exists>t. order_purchase_timestamp r = Some t \<and> t \<le> to_datetime (end_date p)"
    by (simp add: filtered_df_def filter_mask_end)
next
  fix r t
  assume "r \<in> set df"
    and h: "order_purchase_timestamp r = Some t \<and> date_of t = end_date p \<and>
            to_datetime (end_date p) < t"
  show "r \<notin> set (filtered_df df p)"
  proof
    assume "r \<in> set (filtered_df df p)"
    then have "filter_mask p r" by (simp add: filtered_df_def)
    from filter_mask_end [OF this] h show False by auto
  qed
qed

theorem end_date_bound_is_midnight_witness:
  "ex_row1 \<in> set ex_df \<and> order_purchase_timestamp ex_row1 = Some 1520244000000000000 \<and>
   date_of 1520244000000000000 = end_date ex_params \<and>
   to_datetime (end_date ex_params) < 1520244000000000000 \<and>
   ex_row1 \<notin> set (filtered_df ex_df ex_params)"
proof -
  have a: "ex_row1 \<in> set ex_df"
    by (simp add: ex_df_def)
  have b: "order_purchase_timestamp ex_row1 = Some 1520244000000000000"
    by (simp add: ex_row1_def)
  have c: "date_of 1520244000000000000 = end_date ex_params"
    by (simp add: date_of_def ex_params_def NS_PER_DAY_def NS_PER_HOUR_def NS_PER_SECOND_def)
  have d: "to_datetime (end_date ex_params) < 1520244000000000000"
    by (simp add: to_datetime_def ex_params_def NS_PER_DAY_def NS_PER_HOUR_def NS_PER_SECOND_def)
  from end_date_bound_is_midnight [of ex_df ex_params] a b c d
  have "ex_row1 \<notin> set (filtered_df ex_df ex_params)"
    by blast
  with a b c d show ?thesis by blast
qed

lemma NS_PER_DAY_pos: "0 < NS_PER_DAY"
  by (simp add: NS_PER_DAY_def NS_PER_HOUR_def NS_PER_SECOND_def)

lemma to_datetime_date_of_le: "to_datetime (date_of t) \<le> t"
proof -
  have "t = date_of t * NS_PER_DAY + t mod NS_PER_DAY"
    by (simp add: date_of_def)
  moreover have "0 \<le> t mod NS_PER_DAY"
    using NS_PER_DAY_pos by simp
  ultimately show ?thesis
    by (simp add: to_datetime_def)
qed

lemma to_datetime_le_iff: "to_datetime d \<le> t \<longleftrightarrow> d \<le> date_of t"
proof
  assume "to_datetime d \<le> t"
  then have "(d * NS_PER_DAY) div NS_PER_DAY \<le> t div NS_PER_DAY"
    unfolding to_datetime_def using NS_PER_DAY_pos by (intro zdiv_mono1)
  then show "d \<le> date_of t"
    using NS_PER_DAY_pos by (simp add: date_of_def)
next
  assume "d \<le> date_of t"
  then have "d * NS_PER_DAY \<le> date_of t * NS_PER_DAY"
    using NS_PER_DAY_pos by (simp add: mult_right_mono)
  with to_datetime_date_of_le [of t] show "to_datetime d \<le> t"
    by (simp add: to_datetime_def)
qed

lemma le_to_datetime_imp: "t \<le> to_datetime d \<Longrightarrow> date_of t \<le> d"
proof -
  assume "t \<le> to_datetime d"
  then have "t div NS_PER_DAY \<le> (d * NS_PER_DAY) div NS_PER_DAY"
    unfolding to_datetime_def using NS_PER_DAY_pos by (intro zdiv_mono1)
  then show ?thesis
    using NS_PER_DAY_pos by (simp add: date_of_def)
qed

lemma filter_mask_imp_spec_inclusion: "filter_mask p r \<Longrightarrow> spec_inclusion p r"
  by (auto simp: filter_mask_def spec_inclusion_def cell_ge_def cell_le_def
      to_datetime_le_iff le_to_datetime_imp split: option.splits)

lemma filter_mask_iff:
  "filter_mask p r \<longleftrightarrow>
     spec_inclusion p r \<and> cell_le (order_purchase_timestamp r) (to_datetime (end_date p))"
  by (auto simp: filter_mask_def spec_inclusion_def cell_ge_def cell_le_def
      to_datetime_le_iff le_to_datetime_imp split: option.splits)

text \<open>
  Claim C1. The specification includes a record when the calendar day of its purchase lies
  between the start date and the end date (and category, payment type and price pass). The
  mask keeps only records that this rule includes (\<open>filter_mask_imp_spec_inclusion\<close>),
  but not all of them: it compares the timestamp with 00:00:00 of the end date
  (\<open>filter_mask_iff\<close>). Here a record purchased at 10:00 on the end date satisfies the
  rule and is dropped.
\<close>

theorem filtered_df_drops_purchase_on_end_date:
  "ex_row1 \<in> set ex_df \<and> spec_inclusion ex_params ex_row1 \<and>
   filtered_df ex_df ex_params = [ex_row2]"
  by (simp add: ex_df_def spec_inclusion_def filtered_df_def filter_mask_def
      ex_params_def ex_row1_def ex_row2_def ex_row3_def ex_row4_def
      cell_ge_def cell_le_def isin_def between_def date_of_def to_datetime_def
      NS_PER_DAY_def NS_PER_HOUR_def NS_PER_SECOND_def)

lemma fold_min_le: "x \<in> set (y # ys) \<Longrightarrow> fold min ys y \<le> (x::'a::linorder)"
  by (metis Min.set_eq_fold Min_le List.finite_set)

lemma fold_max_ge: "x \<in> set (y # ys) \<Longrightarrow> (x::'a::linorder) \<le> fold max ys y"
  by (metis Max.set_eq_fold Max_ge List.finite_set)

lemma series_min_le:
  assumes "series_min xs = Some m" and "Some x \<in> set xs"
  shows "m \<le> x"
proof -
  from assms(2) have "x \<in> set (dropna xs)"
    by (simp add: set_dropna)
  with assms(1) show ?thesis
    by (auto simp: series_min_def fold_min_le split: list.splits)
qed

lemma series_max_ge:
  assumes "series_max xs = Some m" and "Some x \<in> set xs"
  shows "x \<le> m"
proof -
  from assms(2) have "x \<in> set (dropna xs)"
    by (simp add: set_dropna)
  with assms(1) show ?thesis
    by (auto simp: series_max_def fold_max_ge split: list.splits)
qed

lemma filter_mask_complete: "filter_mask p r \<Longrightarrow> complete_row r"
  by (auto simp: filter_mask_def complete_row_def cell_ge_def isin_def between_def
      split: option.splits)

lemma isin_categories:
  "r \<in> set df \<Longrightarrow> product_category_name r \<noteq> None \<Longrightarrow>
     isin (product_category_name r) (categories df)"
  by (force simp: isin_def categories_def set_unique set_dropna split: option.splits)

lemma isin_payment_methods:
  "r \<in> set df \<Longrightarrow> payment_type r \<noteq> None \<Longrightarrow>
     isin (payment_type r) (payment_methods df)"
  by (force simp: isin_def payment_methods_def set_unique set_dropna split: option.splits)

lemma start_default_ge:
  assumes "default_start_date df = Some sd" and "r \<in> set df"
    and "order_purchase_timestamp r = Some t"
  shows "cell_ge (order_purchase_timestamp r) (to_datetime sd)"
proof -
  from assms(1) obtain m where m: "series_min (map order_purchase_timestamp df) = Some m"
    and sd: "sd = date_of m"
    by (auto simp: default_start_date_def)
  from assms(2,3) have "Some t \<in> set (map order_purchase_timestamp df)"
    by force
  with m have "m \<le> t" by (rule series_min_le)
  with to_datetime_date_of_le [of m] have "to_datetime sd \<le> t"
    by (simp add: sd)
  with assms(3) show ?thesis by (simp add: cell_ge_def)
qed

lemma price_default_between:
  assumes "default_min_price df = Some lo" and "default_max_price df = Some hi"
    and "r \<in> set df" and "payment_value r = Some v"
  shows "between (payment_value r) lo hi"
proof -
  from assms(3,4) have "Some v \<in> set (map payment_value df)"
    by force
  with assms(1,2) have "lo \<le> v" "v \<le> hi"
    by (auto simp: default_min_price_def default_max_price_def
        intro: series_min_le series_max_ge)
  with assms(4) show ?thesis by (simp add: between_def)
qed

text \<open>
  Claim C2, as amended. The filtered view is a subsequence of the data set, for all
  parameters. With the start date at the day of the earliest purchase, an end date whose
  00:00:00 no purchase is later than, every present category and payment type selected and
  the price range from the least to the greatest payment value, the filtered view is
  exactly the records in which purchase timestamp, category, payment type and payment
  value are all present.
\<close>

theorem filtered_df_subseq_and_full_range:
  "subseq (filtered_df df p) df \<and>
   (default_start_date df = Some sd \<and> default_min_price df = Some lo \<and>
    default_max_price df = Some hi \<and>
    (\<forall>r \<in> set df. \<forall>t. order_purchase_timestamp r = Some t \<longrightarrow> t \<le> to_datetime ed)
    \<longrightarrow> filtered_df df \<lparr> start_date = sd, end_date = ed,
                          selected_category = categories df,
                          selected_payment = payment_methods df,
                          min_price = lo, max_price = hi \<rparr>
        = filter complete_row df)"
proof (intro conjI impI)
  show "subseq (filtered_df df p) df"
    by (simp add: filtered_df_def)
next
  let ?p = "\<lparr> start_date = sd, end_date = ed, selected_category = categories df,
              selected_payment = payment_methods df, min_price = lo, max_price = hi \<rparr>"
  assume h: "default_start_date df = Some sd \<and> default_min_price df = Some lo \<and>
    default_max_price df = Some hi \<and>
    (\<forall>r \<in> set df. \<forall>t. order_purchase_timestamp r = Some t \<longrightarrow> t \<le> to_datetime ed)"
  have "filter_mask ?p r \<longleftrightarrow> complete_row r" if r: "r \<in> set df" for r
  proof
    assume "filter_mask ?p r"
    then show "complete_row r" by (rule filter_mask_complete)
  next
    assume c: "complete_row r"
    then obtain t v where t: "order_purchase_timestamp r = Some t"
      and v: "payment_value r = Some v"
      by (auto simp: complete_row_def)
    from h r t have "cell_ge (order_purchase_timestamp r) (to_datetime sd)"
      by (blast intro: start_default_ge)
    moreover from h r t have "cell_le (order_purchase_timestamp r) (to_datetime ed)"
      by (simp add: cell_le_def)
    moreover from c r have "isin (product_category_name r) (categories df)"
      by (simp add: complete_row_def isin_categories)
    moreover from c r have "isin (payment_type r) (payment_methods df)"
      by (simp add: complete_row_def isin_payment_methods)
    moreover from h r v have "between (payment_value r) lo hi"
      by (blast intro: price_default_between)
    ultimately show "filter_mask ?p r"
      by (simp add: filter_mask_def)
  qed
  then show "filtered_df df ?p = filter complete_row df"
    unfolding filtered_df_def by (intro filter_cong) auto
qed


lemma ex_df_eval:
  "default_start_date ex_df = Some 17531 \<and> default_min_price ex_df = Some 100 \<and>
   default_max_price ex_df = Some 300 \<and> categories ex_df = [''toys'', ''books''] \<and>
   payment_methods ex_df = [''credit_card'', ''voucher'']"
  by (simp add: default_start_date_def default_min_price_def default_max_price_def
      categories_def payment_methods_def series_min_def series_max_def unique_def
      ex_df_def ex_row1_def ex_row2_def ex_row3_def ex_row4_def date_of_def
      NS_PER_DAY_def NS_PER_HOUR_def NS_PER_SECOND_def)

theorem filtered_df_subseq_and_full_range_witness:
  "subseq (filtered_df ex_df ex_params_wide) ex_df \<and>
   default_start_date ex_df = Some 17531 \<and> default_min_price ex_df = Some 100 \<and>
   default_max_price ex_df = Some 300 \<and>
   filtered_df ex_df ex_params_wide = [ex_row1, ex_row2, ex_row3]"
proof -
  have p: "ex_params_wide = \<lparr> start_date = 17531, end_date = 17623,
      selected_category = categories ex_df, selected_payment = payment_methods ex_df,
      min_price = 100, max_price = 300 \<rparr>"
    by (simp add: ex_params_wide_def ex_params_def ex_df_eval)
  have b: "\<forall>r \<in> set ex_df. \<forall>t. order_purchase_timestamp r = Some t \<longrightarrow> t \<le> to_datetime 17623"
    by (simp add: ex_df_def ex_row1_def ex_row2_def ex_row3_def ex_row4_def to_datetime_def
        NS_PER_DAY_def NS_PER_HOUR_def NS_PER_SECOND_def)
  have c: "filter complete_row ex_df = [ex_row1, ex_row2, ex_row3]"
    by (simp add: complete_row_def ex_df_def ex_row1_def ex_row2_def ex_row3_def ex_row4_def)
  from filtered_df_subseq_and_full_range [of ex_df ex_params_wide 17531 100 300 17623]
    ex_df_eval b
  have s: "subseq (filtered_df ex_df ex_params_wide) ex_df"
    and e: "filtered_df ex_df ex_params_wide = filter complete_row ex_df"
    unfolding p [symmetric] by blast+
  from e c have "filtered_df ex_df ex_params_wide = [ex_row1, ex_row2, ex_row3]"
    by (rule trans)
  with s ex_df_eval show ?thesis by blast
qed

text \<open>
  Claim C2 as stated fails: with every bound at its observed extreme, a record that has no
  category is not in the filtered view, so the view is not the full data set.
\<close>

theorem full_range_drops_record_without_category:
  "observed_bounds ex_df2 = Some ex_bounds2 \<and>
   filtered_df ex_df2 ex_bounds2 = [ex_row2, ex_row3] \<and>
   filtered_df ex_df2 ex_bounds2 \<noteq> ex_df2"
  by (simp add: observed_bounds_def ex_bounds2_def
      default_start_date_def default_end_date_def default_min_price_def default_max_price_def
      categories_def payment_methods_def series_min_def series_max_def unique_def
      filtered_df_def filter_mask_def cell_ge_def cell_le_def isin_def between_def
      ex_df2_def ex_row2_def ex_row3_def ex_row5_def date_of_def to_datetime_def
      NS_PER_DAY_def NS_PER_HOUR_def NS_PER_SECOND_def)

subsection \<open>The loader\<close>

lemma to_datetime_raise_Inr:
  "to_datetime_raise parse cs = Inr ts \<Longrightarrow>
     ts = map (to_datetime_coerce parse) cs \<and> (\<forall>s. Some s \<in> set cs \<longrightarrow> parse s \<noteq> None)"
  by (induction parse cs arbitrary: ts rule: to_datetime_raise.induct)
     (auto simp: to_datetime_coerce_def split: sum.splits option.splits)

lemma to_datetime_raise_total:
  "(\<forall>s. Some s \<in> set cs \<longrightarrow> parse s \<noteq> None) \<Longrightarrow>
     to_datetime_raise parse cs = Inr (map (to_datetime_coerce parse) cs)"
  by (induction parse cs rule: to_datetime_raise.induct)
     (auto simp: to_datetime_coerce_def split: sum.splits option.splits)

lemma load_data_Inr:
  assumes "load_data parse csv = Inr df"
  shows "df = map (\<lambda>c. load_row parse c
                 (to_datetime_coerce parse (csv_order_purchase_timestamp c))) csv"
    and "\<forall>c \<in> set csv. \<forall>s. csv_order_purchase_timestamp c = Some s \<longrightarrow> parse s \<noteq> None"
proof -
  from assms obtain ts
    where ts: "to_datetime_raise parse (map csv_order_purchase_timestamp csv) = Inr ts"
      and df: "df = map2 (load_row parse) csv ts"
    by (auto simp: load_data_def split: sum.splits)
  from to_datetime_raise_Inr [OF ts]
  have eq: "ts = map (to_datetime_coerce parse) (map csv_order_purchase_timestamp csv)"
    and ok: "\<forall>s. Some s \<in> set (map csv_order_purchase_timestamp csv) \<longrightarrow> parse s \<noteq> None"
    by blast+
  show "df = map (\<lambda>c. load_row parse c
                 (to_datetime_coerce parse (csv_order_purchase_timestamp c))) csv"
    unfolding df eq by (induction csv) auto
  from ok show "\<forall>c \<in> set csv. \<forall>s. csv_order_purchase_timestamp c = Some s \<longrightarrow> parse s \<noteq> None"
    by force
qed

lemma load_data_total:
  assumes "\<forall>c \<in> set csv. \<forall>s. csv_order_purchase_timestamp c = Some s \<longrightarrow> parse s \<noteq> None"
  shows "\<exists>df. load_data parse csv = Inr df"
proof -
  from assms
  have "\<forall>s. Some s \<in> set (map csv_order_purchase_timestamp csv) \<longrightarrow> parse s \<noteq> None"
    by force
  from to_datetime_raise_total [OF this] show ?thesis
    by (simp add: load_data_def)
qed

lemma shipping_time_load_row:
  "shipping_time (load_row parse c purchased) =
     days_between (to_datetime_coerce parse (csv_order_delivered_customer_date c)) purchased"
  by (simp add: load_row_def Let_def)


lemma ex_timestamps:
  "mk_timestamp 2018 3 5 10 0 0 = 1520244000000000000"
  "mk_timestamp 2018 3 8 10 0 0 = 1520503200000000000"
  "mk_timestamp 2017 12 31 23 30 0 = 1514763000000000000"
  "mk_timestamp 2018 4 1 0 0 0 = 1522540800000000000"
  by (simp_all add: mk_timestamp_def days_from_civil_def
      NS_PER_DAY_def NS_PER_HOUR_def NS_PER_SECOND_def)

lemma ex_parse_eval:
  "ex_parse ''2018-03-05 10:00:00'' = Some 1520244000000000000"
  "ex_parse ''2018-03-08 10:00:00'' = Some 1520503200000000000"
  "ex_parse ''2017-12-31 23:30:00'' = Some 1514763000000000000"
  "ex_parse ''2018-04-01 00:00:00'' = Some 1522540800000000000"
  "ex_parse ''soon'' = None"
  by (simp_all add: ex_parse_def ex_timestamps)

lemma ex_derived:
  "hour_of 1520244000000000000 = 10" "to_period_M 1520244000000000000 = (2018, 3)"
  "hour_of 1514763000000000000 = 23" "to_period_M 1514763000000000000 = (2017, 12)"
  "hour_of 1522540800000000000 = 0" "to_period_M 1522540800000000000 = (2018, 4)"
  "timedelta_days 1520503200000000000 1520244000000000000 = 3"
  by code_simp+

lemma ex_load_rows:
  "load_row ex_parse ex_csv1 (Some 1520244000000000000) = ex_row1"
  "load_row ex_parse ex_csv2 (Some 1514763000000000000) = ex_row2"
  "load_row ex_parse ex_csv3 (Some 1522540800000000000) = ex_row3"
  "load_row ex_parse ex_csv4 None = ex_row4"
  by (simp_all add: load_row_def to_datetime_coerce_def days_between_def
      ex_csv1_def ex_csv2_def ex_csv3_def ex_csv4_def
      ex_row1_def ex_row2_def ex_row3_def ex_row4_def ex_parse_eval ex_derived)

lemma ex_load: "load_data ex_parse ex_csv = Inr ex_df"
proof -
  have "to_datetime_raise ex_parse (map csv_order_purchase_timestamp ex_csv) =
      Inr [Some 1520244000000000000, Some 1514763000000000000,
           Some 1522540800000000000, None]"
    by (simp add: ex_csv_def ex_csv1_def ex_csv2_def ex_csv3_def ex_csv4_def ex_parse_eval)
  then show ?thesis
    by (simp add: load_data_def ex_csv_def ex_df_def ex_load_rows)
qed



text \<open>
  The loader itself does not enforce the requirement: an empty purchase cell is read as a
  missing timestamp without error, and the record made of such a row has no
  \<open>shipping_time\<close> whatever its delivery date.
\<close>

lemma load_data_empty_purchase_cell:
  "load_data ex_parse [ex_csv4] = Inr [ex_row4] \<and> shipping_time ex_row4 = None \<and>
   csv_order_delivered_customer_date ex_csv4 = Some ''2018-03-08 10:00:00'' \<and>
   ex_parse ''2018-03-08 10:00:00'' = Some (mk_timestamp 2018 3 8 10 0 0)"
proof -
  have "to_datetime_raise ex_parse (map csv_order_purchase_timestamp [ex_csv4]) = Inr [None]"
    by (simp add: ex_csv4_def)
  then have "load_data ex_parse [ex_csv4] = Inr [ex_row4]"
    by (simp add: load_data_def ex_load_rows)
  moreover have "shipping_time ex_row4 = None"
    by (simp add: ex_row4_def)
  moreover have "csv_order_delivered_customer_date ex_csv4 = Some ''2018-03-08 10:00:00''"
    by (simp add: ex_csv4_def)
  ultimately show ?thesis
    by (simp add: ex_parse_eval ex_timestamps)
qed

subsection \<open>Sorting and counting\<close>

lemma set_sort_values_desc: "set (sort_values_desc f xs) = set xs"
  by (simp add: sort_values_desc_def)

lemma distinct_map_sort_values_desc:
  "distinct (map g (sort_values_desc f xs)) = distinct (map g xs)"
  by (simp add: sort_values_desc_def distinct_map)

lemma sorted_sort_values_desc: "sorted_wrt (\<lambda>a b. f b \<le> f a) (sort_values_desc f xs)"
proof -
  have "sorted (map f (sort_key f (rev xs)))"
    by (rule sorted_sort_key)
  then have "sorted_wrt (\<lambda>a b. f a \<le> f b) (sort_key f (rev xs))"
    by (simp add: sorted_wrt_map)
  then show ?thesis
    by (simp add: sort_values_desc_def sorted_wrt_rev)
qed

lemma set_sort_values_asc: "set (sort_values_asc f xs) = set xs"
  by (simp add: sort_values_asc_def)

lemma distinct_map_sort_values_asc:
  "distinct (map g (sort_values_asc f xs)) = distinct (map g xs)"
  by (simp add: sort_values_asc_def distinct_map)

lemma sorted_sort_values_asc: "sorted_wrt (\<lambda>a b. f a \<le> f b) (sort_values_asc f xs)"
proof -
  have "sorted (map f (sort_key f xs))"
    by (rule sorted_sort_key)
  then show ?thesis
    by (simp add: sort_values_asc_def sorted_wrt_map)
qed

lemma sorted_wrt_take_cut:
  assumes "sorted_wrt P xs" and "y \<in> set xs" and "y \<notin> set (take n xs)"
  shows "length (take n xs) = n \<and> (\<forall>x \<in> set (take n xs). P x y)"
proof -
  have split: "xs = take n xs @ drop n xs"
    by simp
  from assms(2,3) have y: "y \<in> set (drop n xs)"
    by (metis Un_iff append_take_drop_id set_append)
  then have "drop n xs \<noteq> []"
    by auto
  then have "n < length xs"
    by simp
  then have len: "length (take n xs) = n"
    by simp
  from assms(1) have "sorted_wrt P (take n xs @ drop n xs)"
    by simp
  then have "\<forall>x \<in> set (take n xs). \<forall>z \<in> set (drop n xs). P x z"
    unfolding sorted_wrt_append by blast
  with y len show ?thesis
    by blast
qed

lemma count_list_dropna_map:
  "count_list (dropna (map f rows)) c = length (filter (\<lambda>r. f r = Some c) rows)"
proof (induction rows)
  case Nil
  show ?case by simp
next
  case (Cons r rows)
  then show ?case by (cases "f r") auto
qed

subsection \<open>Top categories\<close>

lemma value_counts_iff:
  "(c, n) \<in> set (value_counts xs) \<longleftrightarrow> Some c \<in> set xs \<and> n = count_list (dropna xs) c"
  by (auto simp: value_counts_def set_sort_values_desc set_unique set_dropna)

lemma distinct_value_counts: "distinct (map fst (value_counts xs))"
  by (simp add: value_counts_def distinct_map_sort_values_desc comp_def distinct_unique)

lemma sorted_value_counts: "sorted_wrt (\<lambda>a b. snd b \<le> snd a) (value_counts xs)"
  unfolding value_counts_def by (rule sorted_sort_values_desc)

text \<open>
  Claim C3. The top-categories table has at most 10 rows, their counts are non-increasing
  from top to bottom, and no category occurs twice. Each row gives a category together
  with the number of records of the view that have this category, which is positive; a
  record without category is counted in no row. A category of the view that has no row was
  cut by the truncation: the table then has exactly 10 rows, and none of them has a smaller
  count than this category.
\<close>

theorem top_categories_counts:
  "length (top_categories fdf) \<le> 10 \<and>
   sorted_wrt (\<lambda>a b. snd b \<le> snd a) (top_categories fdf) \<and>
   distinct (map fst (top_categories fdf)) \<and>
   (\<forall>(c, n) \<in> set (top_categories fdf).
      0 < n \<and> n = length (filter (\<lambda>r. product_category_name r = Some c) fdf)) \<and>
   (\<forall>c. (\<exists>r \<in> set fdf. product_category_name r = Some c) \<and>
        c \<notin> fst ` set (top_categories fdf) \<longrightarrow>
        length (top_categories fdf) = 10 \<and>
        (\<forall>(c', n) \<in> set (top_categories fdf).
           length (filter (\<lambda>r. product_category_name r = Some c) fdf) \<le> n))"
proof -
  let ?vc = "value_counts (map product_category_name fdf)"
  let ?cnt = "\<lambda>c. length (filter (\<lambda>r. product_category_name r = Some c) fdf)"
  have top: "top_categories fdf = take 10 ?vc"
    by (simp add: top_categories_def)
  have mem: "(c, n) \<in> set ?vc \<longleftrightarrow> (\<exists>r \<in> set fdf. product_category_name r = Some c) \<and> n = ?cnt c"
    for c n
    by (auto simp: value_counts_iff count_list_dropna_map intro: rev_image_eqI)
  have len: "length (top_categories fdf) \<le> 10"
    by (simp add: top)
  have srt: "sorted_wrt (\<lambda>a b. snd b \<le> snd a) (top_categories fdf)"
    unfolding top using sorted_value_counts by (rule sorted_wrt_take)
  have dst: "distinct (map fst (top_categories fdf))"
    unfolding top take_map [symmetric] using distinct_value_counts by (rule distinct_take)
  have cnt: "\<forall>(c, n) \<in> set (top_categories fdf). 0 < n \<and> n = ?cnt c"
  proof (clarify)
    fix c n assume "(c, n) \<in> set (top_categories fdf)"
    then have "(c, n) \<in> set ?vc"
      unfolding top by (rule in_set_takeD)
    then have r: "\<exists>r \<in> set fdf. product_category_name r = Some c" and n: "n = ?cnt c"
      by (simp_all add: mem)
    from r have "filter (\<lambda>r. product_category_name r = Some c) fdf \<noteq> []"
      by (simp add: filter_empty_conv)
    with n show "0 < n \<and> n = ?cnt c"
      by simp
  qed
  have cut: "length (top_categories fdf) = 10 \<and>
        (\<forall>(c', n) \<in> set (top_categories fdf). ?cnt c \<le> n)"
    if r: "\<exists>r \<in> set fdf. product_category_name r = Some c"
      and out: "c \<notin> fst ` set (top_categories fdf)" for c
  proof -
    from r have in_vc: "(c, ?cnt c) \<in> set ?vc"
      by (simp add: mem)
    from out have "(c, ?cnt c) \<notin> set (take 10 ?vc)"
      unfolding top by force
    from sorted_wrt_take_cut [OF sorted_value_counts in_vc this]
    show ?thesis
      unfolding top by auto
  qed
  from len srt dst cnt cut show ?thesis
    by blast
qed

lemma ex_top: "top_categories ex_df = [(''toys'', 2), (''books'', 1)]"
  by code_simp

theorem top_categories_counts_witness:
  "top_categories ex_df = [(''toys'', 2), (''books'', 1)] \<and>
   length (filter (\<lambda>r. product_category_name r = Some ''toys'') ex_df) = 2 \<and>
   length (filter (\<lambda>r. product_category_name r = Some ''books'') ex_df) = 1"
proof -
  note t = top_categories_counts [of ex_df, THEN conjunct2, THEN conjunct2, THEN conjunct2,
      THEN conjunct1]
  from t show ?thesis
    unfolding ex_top by simp
qed

subsection \<open>Grouping\<close>

lemma set_group_keys: "set (group_keys key rows) = {k. \<exists>r \<in> set rows. key r = Some k}"
  by (auto simp: group_keys_def set_dropna intro: rev_image_eqI)

lemma distinct_group_keys: "distinct (group_keys key rows)"
  by (simp add: group_keys_def)

lemma sorted_group_keys: "sorted (group_keys key rows)"
  by (simp add: group_keys_def)

lemma map_fst_groupby_agg: "map fst (groupby_agg key col agg rows) = group_keys key rows"
  by (simp add: groupby_agg_def comp_def)

lemma groupby_agg_iff:
  "(k, w) \<in> set (groupby_agg key col agg rows) \<longleftrightarrow>
     (\<exists>r \<in> set rows. key r = Some k) \<and>
     w = agg (map col (filter (\<lambda>r. key r = Some k) rows))"
  by (auto simp: groupby_agg_def set_group_keys group_rows_def)

lemma dropna_values_iff: "(k, v) \<in> set (dropna_values xs) \<longleftrightarrow> (k, Some v) \<in> set xs"
  by (induction xs rule: dropna_values.induct) auto

lemma distinct_dropna_values:
  "distinct (map fst xs) \<Longrightarrow> distinct (map fst (dropna_values xs))"
proof (induction xs rule: dropna_values.induct)
  case (3 k v xs)
  have "k \<notin> fst ` set (dropna_values xs)"
  proof
    assume "k \<in> fst ` set (dropna_values xs)"
    then obtain w where "(k, w) \<in> set (dropna_values xs)"
      by force
    then have "(k, Some w) \<in> set xs"
      by (simp add: dropna_values_iff)
    then have "k \<in> fst ` set xs"
      by force
    with 3(2) show False
      by simp
  qed
  with 3 show ?case
    by simp
qed simp_all

subsection \<open>Average shipping time\<close>

lemma series_mean_iff:
  "series_mean xs = Some m \<longleftrightarrow>
     dropna xs \<noteq> [] \<and> m = of_int (sum_list (dropna xs)) / of_nat (length (dropna xs))"
  by (auto simp: series_mean_def split: list.splits)

lemma dropna_eq_Nil_iff: "dropna xs = [] \<longleftrightarrow> (\<forall>x \<in> set xs. x = None)"
  by (induction xs rule: dropna.induct) auto

text \<open>
  Claim C5. The average-shipping-time table has at most 10 rows, their means are
  non-decreasing from top to bottom, and no category occurs twice. Each row gives a
  category that has at least one record of the view with a \<open>shipping_time\<close>, together with
  the mean of the \<open>shipping_time\<close> values of its records that are not missing. A category
  all of whose records lack a \<open>shipping_time\<close> has no row. A category that has a
  \<open>shipping_time\<close> but no row was cut by the truncation: the table then has exactly 10
  rows, and none of them has a greater mean than this category.
\<close>

theorem avg_shipping_time_means:
  "length (avg_shipping_time fdf) \<le> 10 \<and>
   sorted (map snd (avg_shipping_time fdf)) \<and>
   distinct (map fst (avg_shipping_time fdf)) \<and>
   (\<forall>(c, m) \<in> set (avg_shipping_time fdf).
      dropna (map shipping_time (filter (\<lambda>r. product_category_name r = Some c) fdf)) \<noteq> [] \<and>
      m = of_int (sum_list
            (dropna (map shipping_time (filter (\<lambda>r. product_category_name r = Some c) fdf)))) /
          of_nat (length
            (dropna (map shipping_time (filter (\<lambda>r. product_category_name r = Some c) fdf))))) \<and>
   (\<forall>c. (\<forall>r \<in> set fdf. product_category_name r = Some c \<longrightarrow> shipping_time r = None) \<longrightarrow>
        c \<notin> fst ` set (avg_shipping_time fdf)) \<and>
   (\<forall>c. (\<exists>r \<in> set fdf. product_category_name r = Some c \<and> shipping_time r \<noteq> None) \<and>
        c \<notin> fst ` set (avg_shipping_time fdf) \<longrightarrow>
        length (avg_shipping_time fdf) = 10 \<and>
        (\<forall>(c', m) \<in> set (avg_shipping_time fdf).
           m \<le> of_int (sum_list
                 (dropna (map shipping_time
                    (filter (\<lambda>r. product_category_name r = Some c) fdf)))) /
               of_nat (length
                 (dropna (map shipping_time
                    (filter (\<lambda>r. product_category_name r = Some c) fdf))))))"
proof -
  let ?g = "groupby_agg product_category_name shipping_time series_mean fdf"
  let ?s = "sort_values_asc snd (dropna_values ?g)"
  let ?ds = "\<lambda>c. dropna (map shipping_time (filter (\<lambda>r. product_category_name r = Some c) fdf))"
  let ?mean = "\<lambda>c. (of_int (sum_list (?ds c)) / of_nat (length (?ds c)) :: rat)"
  have avg: "avg_shipping_time fdf = take 10 ?s"
    by (simp add: avg_shipping_time_def)
  have mem: "(c, m) \<in> set ?s \<longleftrightarrow>
      (\<exists>r \<in> set fdf. product_category_name r = Some c) \<and> ?ds c \<noteq> [] \<and> m = ?mean c" for c m
  proof -
    have "(c, m) \<in> set ?s \<longleftrightarrow> (c, Some m) \<in> set ?g"
      by (simp add: set_sort_values_asc dropna_values_iff)
    also have "\<dots> \<longleftrightarrow> (\<exists>r \<in> set fdf. product_category_name r = Some c) \<and>
        series_mean (map shipping_time (filter (\<lambda>r. product_category_name r = Some c) fdf)) =
          Some m"
      by (auto simp: groupby_agg_iff)
    also have "\<dots> \<longleftrightarrow> (\<exists>r \<in> set fdf. product_category_name r = Some c) \<and>
        ?ds c \<noteq> [] \<and> m = ?mean c"
      by (simp only: series_mean_iff)
    finally show ?thesis .
  qed
  have nonempty: "?ds c \<noteq> [] \<longleftrightarrow>
      (\<exists>r \<in> set fdf. product_category_name r = Some c \<and> shipping_time r \<noteq> None)" for c
    by (auto simp: dropna_eq_Nil_iff)
  have sorted_s: "sorted_wrt (\<lambda>a b. snd a \<le> snd b) ?s"
    by (rule sorted_sort_values_asc)
  have len: "length (avg_shipping_time fdf) \<le> 10"
    by (simp add: avg)
  have "sorted_wrt (\<lambda>a b. snd a \<le> snd b) (take 10 ?s)"
    using sorted_s by (rule sorted_wrt_take)
  then have srt: "sorted (map snd (avg_shipping_time fdf))"
    by (simp add: avg sorted_wrt_map)
  have "distinct (map fst ?g)"
    by (simp add: map_fst_groupby_agg distinct_group_keys)
  then have "distinct (map fst ?s)"
    by (simp add: distinct_map_sort_values_asc distinct_dropna_values)
  then have dst: "distinct (map fst (avg_shipping_time fdf))"
    unfolding avg take_map [symmetric] by (rule distinct_take)
  have means: "\<forall>(c, m) \<in> set (avg_shipping_time fdf). ?ds c \<noteq> [] \<and> m = ?mean c"
  proof (clarify)
    fix c m assume "(c, m) \<in> set (avg_shipping_time fdf)"
    then have "(c, m) \<in> set ?s"
      unfolding avg by (rule in_set_takeD)
    then show "?ds c \<noteq> [] \<and> m = ?mean c"
      by (simp add: mem)
  qed
  have absent: "c \<notin> fst ` set (avg_shipping_time fdf)"
    if none: "\<forall>r \<in> set fdf. product_category_name r = Some c \<longrightarrow> shipping_time r = None" for c
  proof
    assume "c \<in> fst ` set (avg_shipping_time fdf)"
    then obtain m where "(c, m) \<in> set (avg_shipping_time fdf)"
      by force
    with means have "?ds c \<noteq> []"
      by blast
    with none show False
      by (auto simp: nonempty)
  qed
  have cut: "length (avg_shipping_time fdf) = 10 \<and>
        (\<forall>(c', m) \<in> set (avg_shipping_time fdf). m \<le> ?mean c)"
    if r: "\<exists>r \<in> set fdf. product_category_name r = Some c \<and> shipping_time r \<noteq> None"
      and out: "c \<notin> fst ` set (avg_shipping_time fdf)" for c
  proof -
    from r have "?ds c \<noteq> []"
      by (simp only: nonempty)
    with r have in_s: "(c, ?mean c) \<in> set ?s"
      unfolding mem by blast
    from out have "(c, ?mean c) \<notin> set (take 10 ?s)"
      unfolding avg by force
    from sorted_wrt_take_cut [OF sorted_s in_s this]
    show ?thesis
      unfolding avg by auto
  qed
  from len srt dst means absent cut show ?thesis
    by blast
qed

lemma ex_avg: "avg_shipping_time ex_df = [(''toys'', 3)]"
  by code_simp

theorem avg_shipping_time_means_witness:
  "avg_shipping_time ex_df = [(''toys'', 3)] \<and>
   dropna (map shipping_time (filter (\<lambda>r. product_category_name r = Some ''toys'') ex_df)) = [3] \<and>
   product_category_name ex_row3 = Some ''books'' \<and> shipping_time ex_row3 = None \<and>
   ''books'' \<notin> fst ` set (avg_shipping_time ex_df)"
proof -
  note t = avg_shipping_time_means [of ex_df, THEN conjunct2, THEN conjunct2, THEN conjunct2]
  have toys: "dropna (map shipping_time
      (filter (\<lambda>r. product_category_name r = Some ''toys'') ex_df)) = [3]"
    by (simp add: ex_df_def ex_row1_def ex_row2_def ex_row3_def ex_row4_def)
  have books: "product_category_name ex_row3 = Some ''books''" "shipping_time ex_row3 = None"
    by (simp_all add: ex_row3_def)
  have "\<forall>r \<in> set ex_df. product_category_name r = Some ''books'' \<longrightarrow> shipping_time r = None"
    by (simp add: ex_df_def ex_row1_def ex_row2_def ex_row3_def ex_row4_def)
  with t [THEN conjunct2, THEN conjunct1, rule_format, of "''books''"]
  have out: "''books'' \<notin> fst ` set (avg_shipping_time ex_df)"
    by blast
  from ex_avg toys books out show ?thesis
    by blast
qed

subsection \<open>Monthly revenue\<close>

lemma year_month_load_row:
  "year_month (load_row parse c purchased) = map_option to_period_M purchased"
  "order_purchase_timestamp (load_row parse c purchased) = purchased"
  by (simp_all add: load_row_def Let_def)

lemma load_data_year_month:
  assumes "load_data parse csv = Inr df" and "r \<in> set df"
  shows "year_month r = map_option to_period_M (order_purchase_timestamp r)"
proof -
  from load_data_Inr(1) [OF assms(1)] assms(2)
  obtain c where "r = load_row parse c (to_datetime_coerce parse (csv_order_purchase_timestamp c))"
    by auto
  then show ?thesis
    by (simp only: year_month_load_row)
qed

lemma year_2018_iff:
  assumes "year_month r = map_option to_period_M (order_purchase_timestamp r)"
    and "year_month r = Some k"
  shows "cell_eq (map_option year_of (order_purchase_timestamp r)) 2018 \<longleftrightarrow> fst k = 2018"
  using assms by (cases "order_purchase_timestamp r") (auto simp: cell_eq_def to_period_M_def)

text \<open>
  Claim C4. For the view that any filter parameters select from a loaded data set, the
  monthly-revenue table is in strictly ascending order of year and month. Each row gives a
  month of the year 2018 in which the view has a record, together with the sum of the
  \<open>payment_value\<close> of the records of the view in that month (missing values skipped).
  Every month of 2018 in which the view has a record has a row; a month without record has
  none, and neither has a month of another year, whatever the date range of the filter.
\<close>

theorem monthly_revenue_2018:
  assumes "load_data parse csv = Inr df"
  shows "sorted (map fst (monthly_revenue (filtered_df df p))) \<and>
   distinct (map fst (monthly_revenue (filtered_df df p))) \<and>
   (\<forall>(k, s) \<in> set (monthly_revenue (filtered_df df p)).
      fst k = 2018 \<and>
      (\<exists>r \<in> set (filtered_df df p). year_month r = Some k) \<and>
      s = sum_list (dropna (map payment_value
            (filter (\<lambda>r. year_month r = Some k) (filtered_df df p))))) \<and>
   (\<forall>k. fst k = 2018 \<and> (\<exists>r \<in> set (filtered_df df p). year_month r = Some k) \<longrightarrow>
        k \<in> fst ` set (monthly_revenue (filtered_df df p)))"
proof -
  let ?fdf = "filtered_df df p"
  let ?is18 = "\<lambda>r. cell_eq (map_option year_of (order_purchase_timestamp r)) 2018"
  let ?f18 = "filter ?is18 ?fdf"
  have mr: "monthly_revenue ?fdf = groupby_agg year_month payment_value series_sum ?f18"
    by (simp add: monthly_revenue_def)
  have inv: "year_month r = map_option to_period_M (order_purchase_timestamp r)"
    if "r \<in> set ?fdf" for r
  proof -
    from that have "r \<in> set df"
      by (simp add: filtered_df_def)
    with assms show ?thesis
      by (rule load_data_year_month)
  qed
  have y18: "?is18 r \<longleftrightarrow> fst k = 2018" if "r \<in> set ?fdf" and "year_month r = Some k" for r k
    using inv [OF that(1)] that(2) by (rule year_2018_iff)
  have ex18: "(\<exists>r \<in> set ?f18. year_month r = Some k) \<longleftrightarrow>
      fst k = 2018 \<and> (\<exists>r \<in> set ?fdf. year_month r = Some k)" for k
    unfolding set_filter using y18 [of _ k] by blast
  have grp: "filter (\<lambda>r. year_month r = Some k) ?f18 = filter (\<lambda>r. year_month r = Some k) ?fdf"
    if "fst k = 2018" for k
  proof -
    have "filter (\<lambda>r. year_month r = Some k) ?f18 =
        filter (\<lambda>r. ?is18 r \<and> year_month r = Some k) ?fdf"
      by simp
    also have "\<dots> = filter (\<lambda>r. year_month r = Some k) ?fdf"
      using y18 [of _ k] that by (intro filter_cong refl) blast
    finally show ?thesis .
  qed
  have mem: "(k, s) \<in> set (monthly_revenue ?fdf) \<longleftrightarrow>
      fst k = 2018 \<and> (\<exists>r \<in> set ?fdf. year_month r = Some k) \<and>
      s = sum_list (dropna (map payment_value (filter (\<lambda>r. year_month r = Some k) ?fdf)))"
    for k s
  proof -
    have "(k, s) \<in> set (monthly_revenue ?fdf) \<longleftrightarrow>
        (\<exists>r \<in> set ?f18. year_month r = Some k) \<and>
        s = series_sum (map payment_value (filter (\<lambda>r. year_month r = Some k) ?f18))"
      unfolding mr by (rule groupby_agg_iff)
    also have "\<dots> \<longleftrightarrow> fst k = 2018 \<and> (\<exists>r \<in> set ?fdf. year_month r = Some k) \<and>
        s = series_sum (map payment_value (filter (\<lambda>r. year_month r = Some k) ?f18))"
      by (simp only: ex18 conj_assoc)
    also have "\<dots> \<longleftrightarrow> fst k = 2018 \<and> (\<exists>r \<in> set ?fdf. year_month r = Some k) \<and>
        s = sum_list (dropna (map payment_value (filter (\<lambda>r. year_month r = Some k) ?fdf)))"
      using grp [of k] by (auto simp: series_sum_def)
    finally show ?thesis .
  qed
  have srt: "sorted (map fst (monthly_revenue ?fdf))"
    unfolding mr map_fst_groupby_agg by (rule sorted_group_keys)
  have dst: "distinct (map fst (monthly_revenue ?fdf))"
    unfolding mr map_fst_groupby_agg by (rule distinct_group_keys)
  have sums: "\<forall>(k, s) \<in> set (monthly_revenue ?fdf).
      fst k = 2018 \<and> (\<exists>r \<in> set ?fdf. year_month r = Some k) \<and>
      s = sum_list (dropna (map payment_value (filter (\<lambda>r. year_month r = Some k) ?fdf)))"
    using mem by blast
  have all: "k \<in> fst ` set (monthly_revenue ?fdf)"
    if "fst k = 2018 \<and> (\<exists>r \<in> set ?fdf. year_month r = Some k)" for k
  proof -
    from that have "(k, sum_list (dropna (map payment_value
        (filter (\<lambda>r. year_month r = Some k) ?fdf)))) \<in> set (monthly_revenue ?fdf)"
      unfolding mem by blast
    then show ?thesis
      by force
  qed
  from srt dst sums all show ?thesis
    by blast
qed

lemma ex_view: "filtered_df ex_df ex_params_wide = [ex_row1, ex_row2, ex_row3]"
  by (simp add: filtered_df_def filter_mask_def cell_ge_def cell_le_def isin_def between_def
      ex_params_wide_def ex_params_def ex_df_def ex_row1_def ex_row2_def ex_row3_def ex_row4_def
      to_datetime_def NS_PER_DAY_def NS_PER_HOUR_def NS_PER_SECOND_def)

lemma ex_monthly:
  "monthly_revenue [ex_row1, ex_row2, ex_row3] = [((2018, 3), 100), ((2018, 4), 300)]"
  by code_simp

theorem monthly_revenue_2018_witness:
  "load_data ex_parse ex_csv = Inr ex_df \<and>
   filtered_df ex_df ex_params_wide = [ex_row1, ex_row2, ex_row3] \<and>
   year_month ex_row2 = Some (2017, 12) \<and>
   monthly_revenue (filtered_df ex_df ex_params_wide) = [((2018, 3), 100), ((2018, 4), 300)] \<and>
   sum_list (dropna (map payment_value
     (filter (\<lambda>r. year_month r = Some (2018, 3)) (filtered_df ex_df ex_params_wide)))) = 100 \<and>
   sum_list (dropna (map payment_value
     (filter (\<lambda>r. year_month r = Some (2018, 4)) (filtered_df ex_df ex_params_wide)))) = 300"
proof -
  note t = monthly_revenue_2018 [OF ex_load, of ex_params_wide, THEN conjunct2, THEN conjunct2,
      THEN conjunct1]
  have mr: "monthly_revenue (filtered_df ex_df ex_params_wide) =
      [((2018, 3), 100), ((2018, 4), 300)]"
    by (simp only: ex_view ex_monthly)
  have ym: "year_month ex_row2 = Some (2017, 12)"
    by (simp add: ex_row2_def)
  from t have
    "sum_list (dropna (map payment_value
       (filter (\<lambda>r. year_month r = Some (2018, 3)) (filtered_df ex_df ex_params_wide)))) = 100"
    "sum_list (dropna (map payment_value
       (filter (\<lambda>r. year_month r = Some (2018, 4)) (filtered_df ex_df ex_params_wide)))) = 300"
    unfolding mr by simp_all
  with ex_load ex_view ym mr show ?thesis
    by blast
qed

end
